theory Spec2Isabelle
  imports Main
begin

section \<open>The style API client (src/services/StyleApiClient.ts)\<close>

text \<open>
  The client owns two session identifiers and an iteration counter, mirrors them to the
  browser's \<^verbatim>\<open>localStorage\<close>, and talks to a remote API through \<^verbatim>\<open>fetch\<close>.
  The embedding follows the class method by method. The instance fields are a record
  (\<open>client\<close>), the two collaborators are a second record (\<open>browser\<close>: the key-value
  store and the log of the requests handed to \<^verbatim>\<open>fetch\<close> so far), and every method takes
  and returns both. A thrown value is the \<open>Inl\<close> of a sum. Logging to the console is not
  modelled.
\<close>

subsection \<open>Strings and numbers of the host language\<close>

text \<open>
  A JavaScript number is modelled as an integer or \<^verbatim>\<open>NaN\<close> (the value \<^verbatim>\<open>parseInt\<close>
  gives for text without digits). This is exact for the integers a double represents
  exactly (magnitude below \<open>2 ^ 53\<close>), which covers the iteration numbers 0 to 30 and
  their neighbours; fractions and infinities are outside the model.
\<close>

datatype number = Num int | NaN

text \<open>\<^verbatim>\<open>x >= k\<close>, \<^verbatim>\<open>x > k\<close>, \<^verbatim>\<open>x === k\<close> and \<^verbatim>\<open>x + 1\<close>; every comparison with NaN is false.\<close>

fun num_ge :: "number \<Rightarrow> int \<Rightarrow> bool" where
  "num_ge (Num n) k = (n \<ge> k)"
| "num_ge NaN k = False"

fun num_gt :: "number \<Rightarrow> int \<Rightarrow> bool" where
  "num_gt (Num n) k = (n > k)"
| "num_gt NaN k = False"

fun num_eq :: "number \<Rightarrow> int \<Rightarrow> bool" where
  "num_eq (Num n) k = (n = k)"
| "num_eq NaN k = False"

fun num_succ :: "number \<Rightarrow> number" where
  "num_succ (Num n) = Num (n + 1)"
| "num_succ NaN = NaN"

text \<open>Decimal text of a natural number, most significant digit first.\<close>

definition digitChar :: "nat \<Rightarrow> char" where
  "digitChar d = ''0123456789'' ! d"

fun digitsOf :: "nat \<Rightarrow> string" where
  "digitsOf n =
     (if n < 10 then [digitChar n]
      else digitsOf (n div 10) @ [digitChar (n mod 10)])"

declare digitsOf.simps [simp del]

text \<open>\<^verbatim>\<open>Number.prototype.toString()\<close> and the \<^verbatim>\<open>${...}\<close> of a number in a template.\<close>

fun toString :: "number \<Rightarrow> string" where
  "toString (Num n) = (if n < 0 then CHR ''-'' # digitsOf (nat (- n)) else digitsOf (nat n))"
| "toString NaN = ''NaN''"

text \<open>
  \<^verbatim>\<open>parseInt(s)\<close> with no radix: leading white space is skipped, then an optional
  sign, then an optional \<^verbatim>\<open>0x\<close>/\<^verbatim>\<open>0X\<close> (which selects radix 16), then the longest run of
  digits of the radix; text after it is ignored; no digit at all gives NaN. Strings are
  ASCII here, so the white space is the ASCII white space.
\<close>

definition isWhiteSpace :: "char \<Rightarrow> bool" where
  "isWhiteSpace c = (let k = (of_char c :: nat) in k = 9 \<or> k = 10 \<or> k = 11 \<or> k = 12 \<or> k = 13 \<or> k = 32)"

definition digitValue :: "char \<Rightarrow> nat option" where
  "digitValue c =
     (let k = (of_char c :: nat) in
      if 48 \<le> k \<and> k \<le> 57 then Some (k - 48)
      else if 97 \<le> k \<and> k \<le> 122 then Some (k - 87)
      else if 65 \<le> k \<and> k \<le> 90 then Some (k - 55)
      else None)"

definition isRadixDigit :: "nat \<Rightarrow> char \<Rightarrow> bool" where
  "isRadixDigit R c = (case digitValue c of Some d \<Rightarrow> d < R | None \<Rightarrow> False)"

definition radixValue :: "nat \<Rightarrow> string \<Rightarrow> nat" where
  "radixValue R Z = foldl (\<lambda>acc c. acc * R + (case digitValue c of Some d \<Rightarrow> d | None \<Rightarrow> 0)) 0 Z"

definition parseDigits :: "int \<Rightarrow> nat \<Rightarrow> string \<Rightarrow> number" where
  "parseDigits sign R S =
     (let Z = takeWhile (isRadixDigit R) S in
      if Z = [] then NaN else Num (sign * int (radixValue R Z)))"

definition stripPrefix :: "int \<Rightarrow> string \<Rightarrow> number" where
  "stripPrefix sign S =
     (case S of
        c # d # rest \<Rightarrow>
          if c = CHR ''0'' \<and> (d = CHR ''x'' \<or> d = CHR ''X'') then parseDigits sign 16 rest
          else parseDigits sign 10 S
      | _ \<Rightarrow> parseDigits sign 10 S)"

definition parseInt :: "string \<Rightarrow> number" where
  "parseInt inputString =
     (case dropWhile isWhiteSpace inputString of
        [] \<Rightarrow> NaN
      | c # rest \<Rightarrow>
          if c = CHR ''-'' then stripPrefix (- 1) rest
          else if c = CHR ''+'' then stripPrefix 1 rest
          else stripPrefix 1 (c # rest))"

text \<open>\<^verbatim>\<open>hay.includes(needle)\<close>: the needle occurs in the text as a contiguous run.\<close>

fun startsWith :: "string \<Rightarrow> string \<Rightarrow> bool" where
  "startsWith s [] = True"
| "startsWith [] (c # cs) = False"
| "startsWith (x # xs) (c # cs) = (x = c \<and> startsWith xs cs)"

fun str_includes :: "string \<Rightarrow> string \<Rightarrow> bool" where
  "str_includes [] needle = (needle = [])"
| "str_includes (x # xs) needle = (startsWith (x # xs) needle \<or> str_includes xs needle)"

text \<open>
  Truthiness of a \<^verbatim>\<open>string | null\<close> value (\<^verbatim>\<open>!!x\<close>): null and the empty string are
  falsy, every other string is truthy.
\<close>

fun truthy :: "string option \<Rightarrow> bool" where
  "truthy None = False"
| "truthy (Some s) = (s \<noteq> [])"

subsection \<open>The persistent store\<close>

text \<open>
  \<^verbatim>\<open>localStorage\<close> as a map from keys to strings; reading, writing and removing a
  key always succeed.
\<close>

type_synonym storage = "string \<rightharpoonup> string"

definition getItem :: "storage \<Rightarrow> string \<Rightarrow> string option" where
  "getItem store key = store key"

definition setItem :: "storage \<Rightarrow> string \<Rightarrow> string \<Rightarrow> storage" where
  "setItem store key v = store(key \<mapsto> v)"

definition removeItem :: "storage \<Rightarrow> string \<Rightarrow> storage" where
  "removeItem store key = store(key := None)"

subsection \<open>Requests and the state\<close>

datatype feedback = Like | Dislike

text \<open>
  The object given to \<^verbatim>\<open>JSON.stringify\<close> as the request body, kept structured: the
  feedback value with the optional \<^verbatim>\<open>style\<close> and \<^verbatim>\<open>image_key\<close>, or the
  \<^verbatim>\<open>access_id\<close> and \<^verbatim>\<open>gender\<close> of the authentication request.
\<close>

datatype request_body =
    IterationBody feedback "string option" "string option"
  | AuthBody string string

record request =
  url :: string
  http_method :: string
  headers :: "(string \<times> string) list"
  body :: "request_body option"

record client =
  apiBaseUrl :: string
  aiId :: "string option"
  preferenceId :: "string option"
  currentIteration :: number

record browser =
  localStorage :: storage
  requests :: "request list"

text \<open>A call of \<^verbatim>\<open>fetch\<close> leaves its request in the log.\<close>

definition logRequest :: "request \<Rightarrow> browser \<Rightarrow> browser" where
  "logRequest req env = env\<lparr> requests := requests env @ [req] \<rparr>"

subsection \<open>Construction, session data and the getters\<close>

definition default_baseUrl :: string where
  "default_baseUrl = ''https://haider.techrealm.online/api''"

text \<open>
  The constructor reads the three keys. \<^verbatim>\<open>storedIteration ? parseInt(storedIteration) : 0\<close>
  takes 0 for a missing key and for the empty string.
\<close>

definition StyleApiClient :: "string \<Rightarrow> browser \<Rightarrow> client" where
  "StyleApiClient baseUrl env =
     (let storedIteration = getItem (localStorage env) ''style_current_iteration'' in
      \<lparr> apiBaseUrl = baseUrl,
        aiId = getItem (localStorage env) ''style_ai_id'',
        preferenceId = getItem (localStorage env) ''style_preference_id'',
        currentIteration =
          (case storedIteration of
             None \<Rightarrow> Num 0
           | Some s \<Rightarrow> if s \<noteq> [] then parseInt s else Num 0) \<rparr>)"

definition isAuthenticated :: "client \<Rightarrow> bool" where
  "isAuthenticated this = (truthy (aiId this) \<and> truthy (preferenceId this))"

definition setSessionData :: "string \<Rightarrow> string \<Rightarrow> client \<Rightarrow> browser \<Rightarrow> client \<times> browser" where
  "setSessionData a p this env =
     (this\<lparr> aiId := Some a, preferenceId := Some p, currentIteration := Num 0 \<rparr>,
      env\<lparr> localStorage :=
        setItem (setItem (setItem (localStorage env) ''style_ai_id'' a)
          ''style_preference_id'' p) ''style_current_iteration'' ''0'' \<rparr>)"

definition clearSessionData :: "client \<Rightarrow> browser \<Rightarrow> client \<times> browser" where
  "clearSessionData this env =
     (this\<lparr> aiId := None, preferenceId := None, currentIteration := Num 0 \<rparr>,
      env\<lparr> localStorage :=
        removeItem (removeItem (removeItem (localStorage env) ''style_ai_id'')
          ''style_preference_id'') ''style_current_iteration'' \<rparr>)"

definition getAiId :: "client \<Rightarrow> string option" where
  "getAiId this = aiId this"

definition getPreferenceId :: "client \<Rightarrow> string option" where
  "getPreferenceId this = preferenceId this"

definition getCurrentIteration :: "client \<Rightarrow> number" where
  "getCurrentIteration this = currentIteration this"

definition setCurrentIteration :: "number \<Rightarrow> client \<Rightarrow> browser \<Rightarrow> client \<times> browser" where
  "setCurrentIteration iteration this env =
     (this\<lparr> currentIteration := iteration \<rparr>,
      env\<lparr> localStorage :=
        setItem (localStorage env) ''style_current_iteration'' (toString iteration) \<rparr>)"

subsection \<open>The transport\<close>

text \<open>
  A thrown value is an \<^verbatim>\<open>Error\<close> instance with its message, or some other value
  (which \<^verbatim>\<open>instanceof Error\<close> rejects).
\<close>

datatype thrown = Error string | NonError string

text \<open>
  \<^verbatim>\<open>response.json()\<close> throws or gives the parsed object. The code reads the object in
  two ways: its \<^verbatim>\<open>error\<close> property on the failure paths, and the object as the
  interface the source declares for the endpoint on the success path. The model carries
  both views; bodies are taken to be well typed by the declared interfaces.
\<close>

record 'a parsed =
  error :: "string option"
  data :: 'a

record 'a response =
  status :: nat
  json :: "thrown + 'a parsed"

definition ok :: "'a response \<Rightarrow> bool" where
  "ok r = (200 \<le> status r \<and> status r \<le> 299)"

datatype 'a outcome = Rejects thrown | Resolves "'a response"

text \<open>
  \<^verbatim>\<open>fetch\<close>: the answer to a request may depend on the requests made before it (the
  server has state), so a transport is a function of the earlier requests and the
  current one. Every method appends its request to the log before it reads the answer.
\<close>

type_synonym 'a transport = "request list \<Rightarrow> request \<Rightarrow> 'a outcome"

record auth_response =
  preference_id :: string
  ai_id :: string

record iteration_response =
  image_url :: string
  iteration :: number
  completed :: bool
  style :: "string option"
  image_key :: "string option"

datatype top_style = Score number | Ranked string number | Breakdown "(string \<times> number) list"

datatype history_feedback = HistoryLike | HistoryDislike

record selection =
  image :: string
  selection_style :: string
  selection_feedback :: history_feedback
  score_change :: number
  current_score :: number
  timestamp :: number

record profile_response =
  top_styles :: "(string \<times> top_style) list"
  selection_history :: "selection list"

record save_profile_response =
  message :: string

record health_response =
  health_status :: string

text \<open>\<^verbatim>\<open>errorData.error || 'Unknown error'\<close> and \<^verbatim>\<open>${x}\<close> of a \<^verbatim>\<open>string | null\<close>.\<close>

definition errorText :: "string option \<Rightarrow> string" where
  "errorText e = (case e of None \<Rightarrow> ''Unknown error'' | Some s \<Rightarrow> if s = [] then ''Unknown error'' else s)"

definition template :: "string option \<Rightarrow> string" where
  "template x = (case x of None \<Rightarrow> ''null'' | Some s \<Rightarrow> s)"

definition notAuthenticated :: thrown where
  "notAuthenticated = Error ''Not authenticated. Please authenticate first.''"

subsection \<open>authenticate\<close>

definition authenticate ::
  "auth_response transport \<Rightarrow> string \<Rightarrow> string \<Rightarrow> client \<Rightarrow> browser
     \<Rightarrow> (thrown + auth_response) \<times> client \<times> browser" where
  "authenticate fetch accessId gender this env =
     (let req = \<lparr> url = apiBaseUrl this @ ''/preference'', http_method = ''POST'',
                  headers = [(''Content-Type'', ''application/json''), (''Accept'', ''application/json'')],
                  body = Some (AuthBody accessId gender) \<rparr>;
          env1 = logRequest req env
      in case fetch (requests env) req of
           Rejects e \<Rightarrow> (Inl e, this, env1)
         | Resolves response \<Rightarrow>
             if \<not> ok response then
               (case json response of
                  Inl e \<Rightarrow> (Inl e, this, env1)
                | Inr errorData \<Rightarrow>
                    (Inl (Error (''Authentication failed: '' @ digitsOf (status response) @ '' - ''
                                  @ errorText (error errorData))), this, env1))
             else
               (case json response of
                  Inl e \<Rightarrow> (Inl e, this, env1)
                | Inr d \<Rightarrow>
                    (case setSessionData (ai_id (data d)) (preference_id (data d)) this env1 of
                       (this', env') \<Rightarrow> (Inr (data d), this', env'))))"

subsection \<open>submitFeedbackAndGetNextImage\<close>

definition noMoreImages :: string where
  "noMoreImages = ''No more images available''"

definition invalidIteration :: string where
  "invalidIteration = ''Invalid iteration ID''"

text \<open>The synthetic terminal result \<^verbatim>\<open>{image_url: "", iteration: n, completed: true}\<close>.\<close>

definition terminal :: "number \<Rightarrow> iteration_response" where
  "terminal n = \<lparr> image_url = [], iteration = n, completed = True, style = None, image_key = None \<rparr>"

text \<open>\<^verbatim>\<open>currentIteration === 0 ? 1 : currentIteration + 1\<close>.\<close>

definition nextIterationOf :: "number \<Rightarrow> number" where
  "nextIterationOf n = (if num_eq n 0 then Num 1 else num_succ n)"

text \<open>
  The request of one call: the default feedback is \<^verbatim>\<open>dislike\<close>; style and image key
  go into the body only for iteration 30 and only when both are truthy.
\<close>

definition iterationRequest ::
  "client \<Rightarrow> number \<Rightarrow> feedback option \<Rightarrow> string option \<Rightarrow> string option \<Rightarrow> request" where
  "iterationRequest this nextIteration fb st imageKey =
     (let feedbackValue = (case fb of None \<Rightarrow> Dislike | Some f \<Rightarrow> f) in
      \<lparr> url = apiBaseUrl this @ ''/preference/'' @ template (preferenceId this)
                @ ''/iteration/'' @ toString nextIteration,
        http_method = ''POST'',
        headers = [(''Content-Type'', ''application/json''), (''AI-ID'', template (aiId this))],
        body = Some (if num_eq nextIteration 30 \<and> truthy st \<and> truthy imageKey
                     then IterationBody feedbackValue st imageKey
                     else IterationBody feedbackValue None None) \<rparr>)"

text \<open>
  What a call of \<^verbatim>\<open>fetch\<close> followed by \<^verbatim>\<open>response.json()\<close> throws, if anything:
  the rejection of \<^verbatim>\<open>fetch\<close> itself, or the failure to parse the body.
\<close>

fun thrownBy :: "'a outcome \<Rightarrow> thrown option" where
  "thrownBy (Rejects e) = Some e"
| "thrownBy (Resolves response) = (case json response of Inl e \<Rightarrow> Some e | Inr d \<Rightarrow> None)"

text \<open>The request a call makes from the client's current counter.\<close>

definition nextRequest :: "client \<Rightarrow> feedback option \<Rightarrow> string option \<Rightarrow> string option \<Rightarrow> request" where
  "nextRequest this fb st imageKey =
     iterationRequest this (nextIterationOf (currentIteration this)) fb st imageKey"

text \<open>
  The handler of the inner \<^verbatim>\<open>try\<close>: an \<^verbatim>\<open>Error\<close> whose message includes the
  completion text marks the loop as completed, every other thrown value is thrown again.
  (The outer handler only logs and throws again.)
\<close>

definition catchInner ::
  "thrown \<Rightarrow> client \<Rightarrow> browser \<Rightarrow> (thrown + iteration_response) \<times> client \<times> browser" where
  "catchInner e this env =
     (case e of
        Error msg \<Rightarrow>
          if str_includes msg noMoreImages then
            (case setCurrentIteration (Num 30) this env of
               (this', env') \<Rightarrow> (Inr (terminal (Num 30)), this', env'))
          else (Inl e, this, env)
      | NonError v \<Rightarrow> (Inl e, this, env))"

definition failedToSubmit :: "nat \<Rightarrow> string option \<Rightarrow> thrown" where
  "failedToSubmit st e =
     Error (''Failed to submit feedback: '' @ digitsOf st @ '' - '' @ errorText e)"

text \<open>
  The method itself. It calls itself after an \<^verbatim>\<open>Invalid iteration ID\<close> answer, with
  no bound in the source, so it is a partial function: \<open>None\<close> is a call that never
  returns. The recursive call is returned without \<^verbatim>\<open>await\<close>, so the handlers of the
  calling frame do not see what it throws.
\<close>

partial_function (option) submitFeedbackAndGetNextImage ::
  "iteration_response transport \<Rightarrow> feedback option \<Rightarrow> string option \<Rightarrow> string option
     \<Rightarrow> client \<Rightarrow> browser \<Rightarrow> ((thrown + iteration_response) \<times> client \<times> browser) option" where
  "submitFeedbackAndGetNextImage fetch fb st imageKey this env =
     (if \<not> truthy (aiId this) \<or> \<not> truthy (preferenceId this) then
        Some (Inl notAuthenticated, this, env)
      else if num_ge (currentIteration this) 30 then
        Some (Inr (terminal (currentIteration this)), this, env)
      else
        (let nextIteration = nextIterationOf (currentIteration this) in
         if num_gt nextIteration 30 then
           Some (Inr (terminal (Num 30)), this, env)
         else
           (let req = iterationRequest this nextIteration fb st imageKey;
                env1 = logRequest req env
            in case fetch (requests env) req of
                 Rejects e \<Rightarrow> Some (catchInner e this env1)
               | Resolves response \<Rightarrow>
                   if status response = 400 then
                     (case json response of
                        Inl e \<Rightarrow> Some (catchInner e this env1)
                      | Inr errorData \<Rightarrow>
                          if error errorData = Some noMoreImages then
                            (case setCurrentIteration (Num 30) this env1 of
                               (this', env') \<Rightarrow> Some (Inr (terminal (Num 30)), this', env'))
                          else if error errorData = Some invalidIteration then
                            (case setCurrentIteration (Num 0) this env1 of
                               (this', env') \<Rightarrow>
                                 submitFeedbackAndGetNextImage fetch fb st imageKey this' env')
                          else
                            Some (catchInner
                                    (failedToSubmit (status response) (error errorData)) this env1))
                   else if \<not> ok response then
                     (case json response of
                        Inl e \<Rightarrow> Some (catchInner e this env1)
                      | Inr errorResponse \<Rightarrow>
                          Some (catchInner
                                  (failedToSubmit (status response) (error errorResponse)) this env1))
                   else
                     (case json response of
                        Inl e \<Rightarrow> Some (catchInner e this env1)
                      | Inr d \<Rightarrow>
                          (case setCurrentIteration (iteration (data d)) this env1 of
                             (this', env') \<Rightarrow>
                               Some (Inr ((data d)\<lparr> completed := num_ge (iteration (data d)) 30 \<rparr>),
                                     this', env'))))))"

subsection \<open>saveProfile, getProfile and checkApiHealth\<close>

definition profileRequest :: "client \<Rightarrow> string \<Rightarrow> (string \<times> string) list \<Rightarrow> request" where
  "profileRequest this m extra =
     \<lparr> url = apiBaseUrl this @ ''/preference/'' @ template (preferenceId this) @ ''/profile'',
       http_method = m,
       headers = extra @ [(''AI-ID'', template (aiId this))],
       body = None \<rparr>"

definition saveProfile ::
  "save_profile_response transport \<Rightarrow> client \<Rightarrow> browser
     \<Rightarrow> (thrown + save_profile_response) \<times> client \<times> browser" where
  "saveProfile fetch this env =
     (if \<not> truthy (aiId this) \<or> \<not> truthy (preferenceId this) then
        (Inl notAuthenticated, this, env)
      else
        (let req = profileRequest this ''POST'' [(''Content-Type'', ''application/json'')];
             env1 = logRequest req env
         in case fetch (requests env) req of
              Rejects e \<Rightarrow> (Inl e, this, env1)
            | Resolves response \<Rightarrow>
                if \<not> ok response then
                  (case json response of
                     Inl e \<Rightarrow> (Inl e, this, env1)
                   | Inr errorResponse \<Rightarrow>
                       (Inl (Error (''Failed to save profile: '' @ digitsOf (status response)
                                     @ '' - '' @ errorText (error errorResponse))), this, env1))
                else
                  (case json response of
                     Inl e \<Rightarrow> (Inl e, this, env1)
                   | Inr d \<Rightarrow> (Inr (data d), this, env1))))"

definition defaultProfile :: profile_response where
  "defaultProfile = \<lparr> top_styles = [], selection_history = [] \<rparr>"

text \<open>
  The body of the \<^verbatim>\<open>try\<close> of getProfile, with what it throws as \<open>Inl\<close>. The fixed
  delay before the request is a matter of time only and is not modelled.
\<close>

definition getProfileTry :: "profile_response outcome \<Rightarrow> thrown + profile_response" where
  "getProfileTry answer =
     (case answer of
        Rejects e \<Rightarrow> Inl e
      | Resolves response \<Rightarrow>
          if \<not> ok response then
            if status response = 400 then Inr defaultProfile
            else
              (case json response of
                 Inl e \<Rightarrow> Inl e
               | Inr errorResponse \<Rightarrow>
                   Inl (Error (''Failed to get profile: '' @ digitsOf (status response)
                                @ '' - '' @ errorText (error errorResponse))))
          else
            (case json response of
               Inl e \<Rightarrow> Inl e
             | Inr d \<Rightarrow> Inr (data d)))"

definition getProfile ::
  "profile_response transport \<Rightarrow> client \<Rightarrow> browser
     \<Rightarrow> (thrown + profile_response) \<times> client \<times> browser" where
  "getProfile fetch this env =
     (if \<not> truthy (aiId this) \<or> \<not> truthy (preferenceId this) then
        (Inl notAuthenticated, this, env)
      else
        (let req = profileRequest this ''GET'' [];
             env1 = logRequest req env
         in case getProfileTry (fetch (requests env) req) of
              Inl e \<Rightarrow> (Inr defaultProfile, this, env1)
            | Inr p \<Rightarrow> (Inr p, this, env1)))"

definition checkApiHealth ::
  "health_response transport \<Rightarrow> client \<Rightarrow> browser
     \<Rightarrow> (thrown + health_response) \<times> client \<times> browser" where
  "checkApiHealth fetch this env =
     (let req = \<lparr> url = apiBaseUrl this, http_method = ''GET'', headers = [], body = None \<rparr>;
          env1 = logRequest req env
      in case fetch (requests env) req of
           Rejects e \<Rightarrow> (Inl e, this, env1)
         | Resolves response \<Rightarrow>
             if \<not> ok response then (Inl (Error ''API health check failed''), this, env1)
             else
               (case json response of
                  Inl e \<Rightarrow> (Inl e, this, env1)
                | Inr d \<Rightarrow> (Inr (data d), this, env1)))"

text \<open>The module's singleton, in a browser whose store is empty.\<close>

definition emptyBrowser :: browser where
  "emptyBrowser = \<lparr> localStorage = Map.empty, requests = [] \<rparr>"

definition styleApiClient :: client where
  "styleApiClient = StyleApiClient default_baseUrl emptyBrowser"

subsection \<open>Example clients and transports\<close>

text \<open>An authenticated client with a given counter, used to run the methods on concrete inputs.\<close>

definition authClient :: "number \<Rightarrow> client" where
  "authClient n = \<lparr> apiBaseUrl = ''https://api.test'', aiId = Some ''ai-1'',
                    preferenceId = Some ''pref-1'', currentIteration = n \<rparr>"

text \<open>
  Bodies and transports of the iteration endpoint: an error body (its view as an
  iteration response carries nothing), an image body, and transports that give the same
  answer to every request or that reject every request.
\<close>

definition errorBody :: "string \<Rightarrow> iteration_response parsed" where
  "errorBody txt = \<lparr> error = Some txt,
       data = \<lparr> image_url = [], iteration = NaN, completed = False, style = None, image_key = None \<rparr> \<rparr>"

definition imageBody :: "string \<Rightarrow> int \<Rightarrow> iteration_response parsed" where
  "imageBody u n = \<lparr> error = None,
       data = \<lparr> image_url = u, iteration = Num n, completed = False, style = None, image_key = None \<rparr> \<rparr>"

definition respond400 :: "string \<Rightarrow> iteration_response transport" where
  "respond400 txt h q = Resolves \<lparr> status = 400, json = Inr (errorBody txt) \<rparr>"

definition rejectWith :: "thrown \<Rightarrow> 'a transport" where
  "rejectWith e h q = Rejects e"

definition alwaysInvalid :: "iteration_response transport" where
  "alwaysInvalid h q = Resolves \<lparr> status = 400, json = Inr (errorBody ''Invalid iteration ID'') \<rparr>"

definition invalidTimes :: "nat \<Rightarrow> iteration_response transport" where
  "invalidTimes k h q =
     (if length h < k then Resolves \<lparr> status = 400, json = Inr (errorBody ''Invalid iteration ID'') \<rparr>
      else Resolves \<lparr> status = 200, json = Inr (imageBody ''img-1'' 1) \<rparr>)"


text \<open>
  The answer that makes the method reset and call itself, and the situation in which it
  does so for ever: such an answer to every request, for a client with a session whose
  loop is not exhausted.
\<close>

definition answersInvalid :: "iteration_response outcome \<Rightarrow> bool" where
  "answersInvalid answer =
     (case answer of
        Rejects e \<Rightarrow> False
      | Resolves response \<Rightarrow>
          status response = 400 \<and>
          (case json response of Inl e \<Rightarrow> False | Inr d \<Rightarrow> error d = Some invalidIteration))"

definition retriesForever :: "iteration_response transport \<Rightarrow> client \<Rightarrow> bool" where
  "retriesForever fetch this =
     ((\<forall>h q. answersInvalid (fetch h q)) \<and> truthy (aiId this) \<and> truthy (preferenceId this)
      \<and> \<not> num_ge (currentIteration this) 30)"

text \<open>
  The range of the counter, the agreement of the store with the counter (the key is
  absent only while the counter is 0), and transports whose success answers carry an
  iteration in the range.
\<close>

fun inRange :: "number \<Rightarrow> bool" where
  "inRange (Num n) = (0 \<le> n \<and> n \<le> 30)"
| "inRange NaN = False"

definition mirrored :: "client \<Rightarrow> browser \<Rightarrow> bool" where
  "mirrored this env =
     (case getItem (localStorage env) ''style_current_iteration'' of
        None \<Rightarrow> currentIteration this = Num 0
      | Some s \<Rightarrow> s = toString (currentIteration this))"

definition counterOk :: "client \<times> browser \<Rightarrow> bool" where
  "counterOk s = (inRange (currentIteration (fst s)) \<and> mirrored (fst s) (snd s))"

definition serverInRange :: "iteration_response transport \<Rightarrow> bool" where
  "serverInRange fetch =
     (\<forall>h q response d.
        fetch h q = Resolves response \<and> ok response \<and> json response = Inr d
        \<longrightarrow> inRange (iteration (data d)))"

definition respondImage :: "int \<Rightarrow> iteration_response transport" where
  "respondImage n h q = Resolves \<lparr> status = 200, json = Inr (imageBody ''img-1'' n) \<rparr>"

text \<open>A browser whose store holds only the counter.\<close>

definition storedCounter :: "string \<Rightarrow> browser" where
  "storedCounter s = \<lparr> localStorage = [''style_current_iteration'' \<mapsto> s], requests = [] \<rparr>"

section \<open>Properties\<close>

subsection \<open>One call of submitFeedbackAndGetNextImage, case by case\<close>

text \<open>
  With an integer below 30 (or NaN) in the counter the next iteration is at most 30, so
  the second guard of the method never fires and the call reaches \<^verbatim>\<open>fetch\<close>.
\<close>

lemma next_not_gt: "\<not> num_ge n 30 \<Longrightarrow> \<not> num_gt (nextIterationOf n) 30"
  by (cases n) (auto simp: nextIterationOf_def)

lemma submit_unauthenticated:
  "\<not> truthy (aiId this) \<or> \<not> truthy (preferenceId this) \<Longrightarrow>
   submitFeedbackAndGetNextImage fetch fb st imageKey this env = Some (Inl notAuthenticated, this, env)"
  by (subst submitFeedbackAndGetNextImage.simps) simp

lemma submit_exhausted:
  "truthy (aiId this) \<Longrightarrow> truthy (preferenceId this) \<Longrightarrow> num_ge (currentIteration this) 30 \<Longrightarrow>
   submitFeedbackAndGetNextImage fetch fb st imageKey this env
     = Some (Inr (terminal (currentIteration this)), this, env)"
  by (subst submitFeedbackAndGetNextImage.simps) simp

lemma submit_fetches:
  assumes "truthy (aiId this)" "truthy (preferenceId this)" "\<not> num_ge (currentIteration this) 30"
  shows "submitFeedbackAndGetNextImage fetch fb st imageKey this env =
     (case fetch (requests env) (nextRequest this fb st imageKey) of
        Rejects e \<Rightarrow> Some (catchInner e this (logRequest (nextRequest this fb st imageKey) env))
      | Resolves response \<Rightarrow>
          (case json response of
             Inl e \<Rightarrow> Some (catchInner e this (logRequest (nextRequest this fb st imageKey) env))
           | Inr d \<Rightarrow>
               if status response = 400 then
                 if error d = Some noMoreImages then
                   Some (Inr (terminal (Num 30)),
                         setCurrentIteration (Num 30) this (logRequest (nextRequest this fb st imageKey) env))
                 else if error d = Some invalidIteration then
                   submitFeedbackAndGetNextImage fetch fb st imageKey
                     (fst (setCurrentIteration (Num 0) this (logRequest (nextRequest this fb st imageKey) env)))
                     (snd (setCurrentIteration (Num 0) this (logRequest (nextRequest this fb st imageKey) env)))
                 else
                   Some (catchInner (failedToSubmit (status response) (error d)) this
                           (logRequest (nextRequest this fb st imageKey) env))
               else if \<not> ok response then
                 Some (catchInner (failedToSubmit (status response) (error d)) this
                         (logRequest (nextRequest this fb st imageKey) env))
               else
                 Some (Inr ((data d)\<lparr> completed := num_ge (iteration (data d)) 30 \<rparr>),
                       setCurrentIteration (iteration (data d)) this
                         (logRequest (nextRequest this fb st imageKey) env))))"
  using assms next_not_gt [OF assms(3)]
  by (subst submitFeedbackAndGetNextImage.simps)
     (simp add: nextRequest_def Let_def split: outcome.splits sum.splits prod.splits)


text \<open>Decimal text of the numbers the method writes.\<close>

lemma digitsOf_30: "digitsOf 30 = ''30''"
  by (simp add: digitsOf.simps digitChar_def)

lemma digitsOf_0: "digitsOf 0 = ''0''"
  by (simp add: digitsOf.simps digitChar_def)

lemma digitsOf_1: "digitsOf (Suc 0) = ''1''"
  by (simp add: digitsOf.simps digitChar_def)

text \<open>\<open>str_includes\<close> is the substring relation.\<close>

lemma startsWith_iff: "startsWith s n \<longleftrightarrow> (\<exists>r. s = n @ r)"
  by (induction s n rule: startsWith.induct) auto

lemma str_includes_iff: "str_includes hay needle \<longleftrightarrow> (\<exists>p s. hay = p @ needle @ s)"
proof (induction hay)
  case Nil
  then show ?case by auto
next
  case (Cons x xs)
  show ?case
  proof
    assume "str_includes (x # xs) needle"
    then consider "startsWith (x # xs) needle" | "str_includes xs needle" by auto
    then show "\<exists>p s. x # xs = p @ needle @ s"
    proof cases
      case 1
      then obtain r where "x # xs = needle @ r" by (auto simp: startsWith_iff)
      then have "x # xs = [] @ needle @ r" by simp
      then show ?thesis by blast
    next
      case 2
      then obtain p s where "xs = p @ needle @ s" using Cons.IH by blast
      then have "x # xs = (x # p) @ needle @ s" by simp
      then show ?thesis by blast
    qed
  next
    assume "\<exists>p s. x # xs = p @ needle @ s"
    then obtain p s where eq: "x # xs = p @ needle @ s" by blast
    show "str_includes (x # xs) needle"
    proof (cases p)
      case Nil
      with eq have "startsWith (x # xs) needle" by (auto simp: startsWith_iff)
      then show ?thesis by simp
    next
      case (Cons y ys)
      with eq have "xs = ys @ needle @ s" by simp
      then have "str_includes xs needle" using Cons.IH by blast
      then show ?thesis by simp
    qed
  qed
qed

lemma str_includes_append: "str_includes s n \<Longrightarrow> str_includes (p @ s) n"
proof -
  assume "str_includes s n"
  then obtain a b where "s = a @ n @ b" by (auto simp: str_includes_iff)
  then have "p @ s = (p @ a) @ n @ b" by simp
  then show ?thesis unfolding str_includes_iff by blast
qed

text \<open>The state after a request and after the two writes of the counter.\<close>

lemma logRequest_eq:
  "logRequest req env = \<lparr> localStorage = localStorage env, requests = requests env @ [req] \<rparr>"
  by (cases env) (simp add: logRequest_def)

lemma setCurrentIteration_30:
  "setCurrentIteration (Num 30) this (logRequest req env) =
     (this\<lparr> currentIteration := Num 30 \<rparr>,
      \<lparr> localStorage = (localStorage env)(''style_current_iteration'' \<mapsto> ''30''),
        requests = requests env @ [req] \<rparr>)"
  by (cases env) (simp add: setCurrentIteration_def logRequest_def setItem_def digitsOf_30)

lemma setCurrentIteration_0:
  "setCurrentIteration (Num 0) this (logRequest req env) =
     (this\<lparr> currentIteration := Num 0 \<rparr>,
      \<lparr> localStorage = (localStorage env)(''style_current_iteration'' \<mapsto> ''0''),
        requests = requests env @ [req] \<rparr>)"
  by (cases env) (simp add: setCurrentIteration_def logRequest_def setItem_def digitsOf_0)

text \<open>Whatever the transport throws goes to the inner handler.\<close>

lemma submit_throws:
  assumes "truthy (aiId this)" "truthy (preferenceId this)" "\<not> num_ge (currentIteration this) 30"
    and "thrownBy (fetch (requests env) (nextRequest this fb st imageKey)) = Some e"
  shows "submitFeedbackAndGetNextImage fetch fb st imageKey this env
           = Some (catchInner e this (logRequest (nextRequest this fb st imageKey) env))"
  using assms(4) unfolding submit_fetches [OF assms(1-3)]
  by (auto split: outcome.splits sum.splits)

lemma catchInner_completes:
  "str_includes m noMoreImages \<Longrightarrow>
   catchInner (Error m) this (logRequest req env) =
     (Inr (terminal (Num 30)), this\<lparr> currentIteration := Num 30 \<rparr>,
      \<lparr> localStorage = (localStorage env)(''style_current_iteration'' \<mapsto> ''30''),
        requests = requests env @ [req] \<rparr>)"
  by (simp add: catchInner_def setCurrentIteration_30)

lemma catchInner_rethrows:
  "\<not> (\<exists>m. e = Error m \<and> str_includes m noMoreImages) \<Longrightarrow> catchInner e this env = (Inl e, this, env)"
  by (cases e) (auto simp: catchInner_def)

lemma nextRequest_first:
  "nextRequest (authClient (Num 0)) None None None =
     \<lparr> url = ''https://api.test/preference/pref-1/iteration/1'', http_method = ''POST'',
       headers = [(''Content-Type'', ''application/json''), (''AI-ID'', ''ai-1'')],
       body = Some (IterationBody Dislike None None) \<rparr>"
  by (simp add: nextRequest_def iterationRequest_def nextIterationOf_def authClient_def
      template_def digitsOf_1)

lemma not_includes_invalid: "\<not> str_includes invalidIteration noMoreImages"
  by (simp add: invalidIteration_def noMoreImages_def)

lemma digitsOf_6: "digitsOf 6 = ''6''"
  by (simp add: digitsOf.simps digitChar_def)

lemma authClient_simps:
  "truthy (aiId (authClient n))" "truthy (preferenceId (authClient n))"
  "currentIteration (authClient n) = n" "(authClient n)\<lparr> currentIteration := m \<rparr> = authClient m"
  by (simp_all add: authClient_def)

lemma nextRequest_sixth:
  "nextRequest (authClient (Num 5)) (Some Like) None None =
     \<lparr> url = ''https://api.test/preference/pref-1/iteration/6'', http_method = ''POST'',
       headers = [(''Content-Type'', ''application/json''), (''AI-ID'', ''ai-1'')],
       body = Some (IterationBody Like None None) \<rparr>"
  by (simp add: nextRequest_def iterationRequest_def nextIterationOf_def authClient_def
      template_def digitsOf_6)

lemma nextRequest_retry:
  "nextRequest (authClient (Num 0)) (Some Like) None None =
     \<lparr> url = ''https://api.test/preference/pref-1/iteration/1'', http_method = ''POST'',
       headers = [(''Content-Type'', ''application/json''), (''AI-ID'', ''ai-1'')],
       body = Some (IterationBody Like None None) \<rparr>"
  by (simp add: nextRequest_def iterationRequest_def nextIterationOf_def authClient_def
      template_def digitsOf_1)

subsection \<open>Numbers written to the store are read back\<close>

text \<open>
  The decimal text of a number consists of digits only, so \<open>parseInt\<close> reads all of it:
  \<open>parseInt\<close> inverts \<open>toString\<close>.
\<close>

lemma digit_code: "isRadixDigit 10 c \<Longrightarrow> 48 \<le> (of_char c :: nat) \<and> (of_char c :: nat) \<le> 57"
  by (auto simp: isRadixDigit_def digitValue_def Let_def split: if_splits)

lemma digit_plain:
  assumes "isRadixDigit 10 c"
  shows "\<not> isWhiteSpace c" "c \<noteq> CHR ''-''" "c \<noteq> CHR ''+''" "c \<noteq> CHR ''x''" "c \<noteq> CHR ''X''"
  using digit_code [OF assms] by (auto simp: isWhiteSpace_def)

lemma digitChar_value: "d < 10 \<Longrightarrow> digitValue (digitChar d) = Some d"
proof -
  assume "d < 10"
  then have "d = 0 \<or> d = 1 \<or> d = 2 \<or> d = 3 \<or> d = 4 \<or> d = 5 \<or> d = 6 \<or> d = 7 \<or> d = 8 \<or> d = 9"
    by arith
  then show ?thesis
    by (elim disjE) (simp_all add: digitChar_def digitValue_def)
qed

lemma digitChar_digit: "d < 10 \<Longrightarrow> isRadixDigit 10 (digitChar d)"
  by (simp add: isRadixDigit_def digitChar_value)

lemma digitsOf_digits: "\<forall>c \<in> set (digitsOf n). isRadixDigit 10 c"
proof (induction n rule: digitsOf.induct)
  case (1 n)
  show ?case
  proof (cases "n < 10")
    case True
    then show ?thesis by (subst digitsOf.simps) (simp add: digitChar_digit)
  next
    case False
    with 1 show ?thesis by (subst digitsOf.simps) (simp add: digitChar_digit)
  qed
qed

lemma digitsOf_nonempty: "digitsOf n \<noteq> []"
  by (subst digitsOf.simps) simp

lemma radixValue_snoc:
  "radixValue R (Z @ [c]) = radixValue R Z * R + (case digitValue c of Some d \<Rightarrow> d | None \<Rightarrow> 0)"
  by (simp add: radixValue_def)

lemma radixValue_digitsOf: "radixValue 10 (digitsOf n) = n"
proof (induction n rule: digitsOf.induct)
  case (1 n)
  show ?case
  proof (cases "n < 10")
    case True
    then show ?thesis
      by (subst digitsOf.simps) (simp add: radixValue_def digitChar_value)
  next
    case False
    with 1 have "radixValue 10 (digitsOf (n div 10)) = n div 10" by simp
    with False show ?thesis
      by (subst digitsOf.simps) (simp add: radixValue_snoc digitChar_value)
  qed
qed

lemma parseDigits_digitsOf: "parseDigits sign 10 (digitsOf n) = Num (sign * int n)"
proof -
  have all: "takeWhile (isRadixDigit 10) (digitsOf n) = digitsOf n"
    using digitsOf_digits by (simp add: takeWhile_eq_all_conv)
  show ?thesis
    unfolding parseDigits_def Let_def all
    by (simp add: digitsOf_nonempty radixValue_digitsOf)
qed

lemma stripPrefix_digitsOf: "stripPrefix sign (digitsOf n) = Num (sign * int n)"
proof (cases "digitsOf n")
  case Nil
  then show ?thesis using digitsOf_nonempty by simp
next
  case (Cons c cs)
  show ?thesis
  proof (cases cs)
    case Nil
    with Cons show ?thesis
      using parseDigits_digitsOf [of sign n] by (simp add: stripPrefix_def)
  next
    case (Cons d rest)
    with \<open>digitsOf n = c # cs\<close> have "d \<in> set (digitsOf n)" by simp
    then have "isRadixDigit 10 d" using digitsOf_digits by blast
    then have "d \<noteq> CHR ''x''" "d \<noteq> CHR ''X''" by (rule digit_plain)+
    with Cons \<open>digitsOf n = c # cs\<close> show ?thesis
      using parseDigits_digitsOf [of sign n] by (simp add: stripPrefix_def)
  qed
qed

lemma parseInt_digitsOf: "parseInt (digitsOf n) = Num (int n)"
proof (cases "digitsOf n")
  case Nil
  then show ?thesis using digitsOf_nonempty by simp
next
  case (Cons c cs)
  then have "c \<in> set (digitsOf n)" by simp
  then have "isRadixDigit 10 c" using digitsOf_digits by blast
  then have "\<not> isWhiteSpace c" "c \<noteq> CHR ''-''" "c \<noteq> CHR ''+''" by (rule digit_plain)+
  with Cons show ?thesis
    using stripPrefix_digitsOf [of 1 n] by (simp add: parseInt_def)
qed

lemma parseInt_toString: "parseInt (toString x) = x"
proof (cases x)
  case (Num n)
  show ?thesis
  proof (cases "n < 0")
    case True
    have "parseInt (CHR ''-'' # digitsOf (nat (- n))) = stripPrefix (- 1) (digitsOf (nat (- n)))"
      by (simp add: parseInt_def isWhiteSpace_def)
    with True Num show ?thesis by (simp add: stripPrefix_digitsOf)
  next
    case False
    with Num show ?thesis by (simp add: parseInt_digitsOf)
  qed
next
  case NaN
  then show ?thesis
    by (simp add: parseInt_def isWhiteSpace_def stripPrefix_def parseDigits_def isRadixDigit_def
        digitValue_def)
qed

lemma toString_nonempty: "toString x \<noteq> []"
  by (cases x) (simp_all add: digitsOf_nonempty)

subsection \<open>The exhausted loop\<close>

text \<open>
  C1. For every counter value \<open>n \<ge> 30\<close>, a call on an authenticated client returns the
  synthetic terminal result \<^verbatim>\<open>{image_url: "", iteration: n, completed: true}\<close>; the
  client and the browser (store and request log) come back unchanged, so no request is
  made, whatever the transport.
\<close>

theorem exhausted_returns_terminal_without_call:
  assumes "isAuthenticated this" and "currentIteration this = Num n" and "n \<ge> 30"
  shows "submitFeedbackAndGetNextImage fetch fb st imageKey this env
           = Some (Inr \<lparr> image_url = [], iteration = Num n, completed = True,
                          style = None, image_key = None \<rparr>, this, env)"
  using assms submit_exhausted [of this fetch fb st imageKey env]
  by (simp add: isAuthenticated_def terminal_def)

theorem exhausted_returns_terminal_without_call_witness:
  "submitFeedbackAndGetNextImage (\<lambda>h q. Rejects (Error ''offline'')) (Some Like) None None
       (authClient (Num 31)) emptyBrowser
     = Some (Inr \<lparr> image_url = [], iteration = Num 31, completed = True,
                    style = None, image_key = None \<rparr>, authClient (Num 31), emptyBrowser)"
  using exhausted_returns_terminal_without_call
    [of "authClient (Num 31)" 31 "\<lambda>h q. Rejects (Error ''offline'')" "Some Like" None None emptyBrowser]
  by (simp add: isAuthenticated_def authClient_def emptyBrowser_def)

subsection \<open>Calls without a session\<close>

text \<open>
  C5. When \<open>aiId\<close> or \<open>preferenceId\<close> is null, each of submitFeedbackAndGetNextImage,
  saveProfile and getProfile throws the not-authenticated error; client, store and request
  log are unchanged, so no request is made.
\<close>

theorem unauthenticated_calls_fail_without_call:
  assumes "aiId this = None \<or> preferenceId this = None"
  shows "submitFeedbackAndGetNextImage fetch fb st imageKey this env
           = Some (Inl (Error ''Not authenticated. Please authenticate first.''), this, env)
       \<and> saveProfile fetchS this env
           = (Inl (Error ''Not authenticated. Please authenticate first.''), this, env)
       \<and> getProfile fetchP this env
           = (Inl (Error ''Not authenticated. Please authenticate first.''), this, env)"
proof -
  from assms have guard: "\<not> truthy (aiId this) \<or> \<not> truthy (preferenceId this)"
    by auto
  have "submitFeedbackAndGetNextImage fetch fb st imageKey this env
          = Some (Inl notAuthenticated, this, env)"
    using guard by (rule submit_unauthenticated)
  moreover have "saveProfile fetchS this env = (Inl notAuthenticated, this, env)"
    using guard by (simp add: saveProfile_def)
  moreover have "getProfile fetchP this env = (Inl notAuthenticated, this, env)"
    using guard by (simp add: getProfile_def)
  ultimately show ?thesis
    by (simp add: notAuthenticated_def)
qed

theorem unauthenticated_calls_fail_without_call_witness:
  "submitFeedbackAndGetNextImage (\<lambda>h q. Rejects (Error ''offline'')) None None None
       styleApiClient emptyBrowser
     = Some (Inl (Error ''Not authenticated. Please authenticate first.''), styleApiClient, emptyBrowser)
   \<and> saveProfile (\<lambda>h q. Rejects (Error ''offline'')) styleApiClient emptyBrowser
     = (Inl (Error ''Not authenticated. Please authenticate first.''), styleApiClient, emptyBrowser)
   \<and> getProfile (\<lambda>h q. Rejects (Error ''offline'')) styleApiClient emptyBrowser
     = (Inl (Error ''Not authenticated. Please authenticate first.''), styleApiClient, emptyBrowser)
   \<and> aiId styleApiClient = None"
proof -
  have none: "aiId styleApiClient = None"
    by (simp add: styleApiClient_def StyleApiClient_def emptyBrowser_def getItem_def)
  then have "aiId styleApiClient = None \<or> preferenceId styleApiClient = None" ..
  from unauthenticated_calls_fail_without_call [OF this] none show ?thesis
    by simp
qed

subsection \<open>Session data and the store\<close>

lemma parseInt_zero: "parseInt ''0'' = Num 0"
  by (simp add: parseInt_def isWhiteSpace_def stripPrefix_def parseDigits_def isRadixDigit_def
      digitValue_def radixValue_def)

text \<open>
  C6, as the code has it. After \<open>setSessionData a p\<close>, a client constructed on the same
  store has \<open>getAiId = a\<close>, \<open>getPreferenceId = p\<close> and \<open>getCurrentIteration = 0\<close> for
  all strings; \<open>isAuthenticated\<close> holds exactly when both strings are non-empty.
\<close>

theorem setSessionData_roundtrip:
  "getAiId (StyleApiClient baseUrl (snd (setSessionData a p this env))) = Some a
   \<and> getPreferenceId (StyleApiClient baseUrl (snd (setSessionData a p this env))) = Some p
   \<and> getCurrentIteration (StyleApiClient baseUrl (snd (setSessionData a p this env))) = Num 0
   \<and> isAuthenticated (StyleApiClient baseUrl (snd (setSessionData a p this env)))
       = (a \<noteq> [] \<and> p \<noteq> [])"
  by (simp add: setSessionData_def StyleApiClient_def getAiId_def getPreferenceId_def
      getCurrentIteration_def isAuthenticated_def getItem_def setItem_def parseInt_zero)

text \<open>
  C6 as stated fails for the empty string: the identifier comes back from the store, but
  the fresh client is not authenticated.
\<close>

theorem roundtrip_empty_id_counterexample:
  "\<not> isAuthenticated
       (StyleApiClient default_baseUrl (snd (setSessionData [] ''pref-1'' styleApiClient emptyBrowser)))"
  by (simp add: setSessionData_def isAuthenticated_def StyleApiClient_def getItem_def setItem_def)

text \<open>
  C7. After \<open>clearSessionData\<close> both identifiers are null, the counter is 0, the client
  is not authenticated, and the store holds none of the three keys.
\<close>

theorem clearSessionData_clears:
  "getAiId (fst (clearSessionData this env)) = None
   \<and> getPreferenceId (fst (clearSessionData this env)) = None
   \<and> getCurrentIteration (fst (clearSessionData this env)) = Num 0
   \<and> isAuthenticated (fst (clearSessionData this env)) = False
   \<and> getItem (localStorage (snd (clearSessionData this env))) ''style_ai_id'' = None
   \<and> getItem (localStorage (snd (clearSessionData this env))) ''style_preference_id'' = None
   \<and> getItem (localStorage (snd (clearSessionData this env))) ''style_current_iteration'' = None"
  by (simp add: clearSessionData_def getAiId_def getPreferenceId_def getCurrentIteration_def
      isAuthenticated_def getItem_def removeItem_def)

text \<open>
  C8, as the code has it. \<open>isAuthenticated\<close> tests truthiness: it holds exactly when
  both identifiers are non-null and non-empty strings.
\<close>

theorem isAuthenticated_iff_nonempty:
  "isAuthenticated this =
     (\<exists>a p. aiId this = Some a \<and> preferenceId this = Some p \<and> a \<noteq> [] \<and> p \<noteq> [])"
  by (cases "aiId this"; cases "preferenceId this") (auto simp: isAuthenticated_def)

text \<open>
  C8 as stated fails for the empty string: after \<open>setSessionData "" "pref-1"\<close> both
  identifiers are non-null and the client is not authenticated.
\<close>

theorem isAuthenticated_not_nonnull_counterexample:
  "aiId (fst (setSessionData [] ''pref-1'' styleApiClient emptyBrowser)) \<noteq> None
   \<and> preferenceId (fst (setSessionData [] ''pref-1'' styleApiClient emptyBrowser)) \<noteq> None
   \<and> \<not> isAuthenticated (fst (setSessionData [] ''pref-1'' styleApiClient emptyBrowser))"
  by (simp add: setSessionData_def isAuthenticated_def)


subsection \<open>Completion by the server\<close>

text \<open>
  C3. For an authenticated client whose loop is not exhausted: (1) a 400 answer with the
  error text exactly \<^verbatim>\<open>No more images available\<close> stores 30 in the counter, in the
  client and in the store, and returns \<^verbatim>\<open>{image_url: "", iteration: 30, completed: true}\<close>;
  (2) an \<^verbatim>\<open>Error\<close> thrown by the transport whose message contains that text has the
  same outcome; (3) every other thrown value is thrown on to the caller unchanged, the
  client and the store being as before.
\<close>

theorem no_more_images_completes:
  assumes "isAuthenticated this" and "\<not> num_ge (currentIteration this) 30"
  shows
    "(\<forall>response d.
        fetch (requests env) (nextRequest this fb st imageKey) = Resolves response
        \<and> status response = 400 \<and> json response = Inr d
        \<and> error d = Some ''No more images available'' \<longrightarrow>
        submitFeedbackAndGetNextImage fetch fb st imageKey this env =
          Some (Inr \<lparr> image_url = [], iteration = Num 30, completed = True,
                       style = None, image_key = None \<rparr>,
                this\<lparr> currentIteration := Num 30 \<rparr>,
                \<lparr> localStorage = (localStorage env)(''style_current_iteration'' \<mapsto> ''30''),
                  requests = requests env @ [nextRequest this fb st imageKey] \<rparr>))
   \<and> (\<forall>m.
        thrownBy (fetch (requests env) (nextRequest this fb st imageKey)) = Some (Error m)
        \<and> str_includes m ''No more images available'' \<longrightarrow>
        submitFeedbackAndGetNextImage fetch fb st imageKey this env =
          Some (Inr \<lparr> image_url = [], iteration = Num 30, completed = True,
                       style = None, image_key = None \<rparr>,
                this\<lparr> currentIteration := Num 30 \<rparr>,
                \<lparr> localStorage = (localStorage env)(''style_current_iteration'' \<mapsto> ''30''),
                  requests = requests env @ [nextRequest this fb st imageKey] \<rparr>))
   \<and> (\<forall>e.
        thrownBy (fetch (requests env) (nextRequest this fb st imageKey)) = Some e
        \<and> \<not> (\<exists>m. e = Error m \<and> str_includes m ''No more images available'') \<longrightarrow>
        submitFeedbackAndGetNextImage fetch fb st imageKey this env =
          Some (Inl e, this,
                \<lparr> localStorage = localStorage env,
                  requests = requests env @ [nextRequest this fb st imageKey] \<rparr>))"
proof -
  from assms(1) have a: "truthy (aiId this)" and p: "truthy (preferenceId this)"
    by (simp_all add: isAuthenticated_def)
  note step = submit_fetches [OF a p assms(2)]
  note throws = submit_throws [where fetch = fetch and env = env and fb = fb and st = st
      and imageKey = imageKey, OF a p assms(2)]
  have one: "submitFeedbackAndGetNextImage fetch fb st imageKey this env =
          Some (Inr \<lparr> image_url = [], iteration = Num 30, completed = True,
                       style = None, image_key = None \<rparr>,
                this\<lparr> currentIteration := Num 30 \<rparr>,
                \<lparr> localStorage = (localStorage env)(''style_current_iteration'' \<mapsto> ''30''),
                  requests = requests env @ [nextRequest this fb st imageKey] \<rparr>)"
    if "fetch (requests env) (nextRequest this fb st imageKey) = Resolves response"
      "status response = 400" "json response = Inr d" "error d = Some ''No more images available''"
    for response d
    using that by (simp add: step noMoreImages_def terminal_def setCurrentIteration_30)
  have two: "submitFeedbackAndGetNextImage fetch fb st imageKey this env =
          Some (Inr \<lparr> image_url = [], iteration = Num 30, completed = True,
                       style = None, image_key = None \<rparr>,
                this\<lparr> currentIteration := Num 30 \<rparr>,
                \<lparr> localStorage = (localStorage env)(''style_current_iteration'' \<mapsto> ''30''),
                  requests = requests env @ [nextRequest this fb st imageKey] \<rparr>)"
    if "thrownBy (fetch (requests env) (nextRequest this fb st imageKey)) = Some (Error m)"
      "str_includes m ''No more images available''"
    for m
    using that(2) by (simp add: throws [OF that(1)] catchInner_completes noMoreImages_def terminal_def)
  have three: "submitFeedbackAndGetNextImage fetch fb st imageKey this env =
          Some (Inl e, this,
                \<lparr> localStorage = localStorage env,
                  requests = requests env @ [nextRequest this fb st imageKey] \<rparr>)"
    if "thrownBy (fetch (requests env) (nextRequest this fb st imageKey)) = Some e"
      "\<not> (\<exists>m. e = Error m \<and> str_includes m ''No more images available'')"
    for e
    using that(2)
    by (simp add: throws [OF that(1)] catchInner_rethrows noMoreImages_def logRequest_eq)
  from one two three show ?thesis by blast
qed


theorem no_more_images_completes_witness:
  "submitFeedbackAndGetNextImage (respond400 ''No more images available'') None None None
       (authClient (Num 0)) emptyBrowser
     = Some (Inr \<lparr> image_url = [], iteration = Num 30, completed = True,
                    style = None, image_key = None \<rparr>,
             authClient (Num 30),
             \<lparr> localStorage = [''style_current_iteration'' \<mapsto> ''30''],
               requests = [nextRequest (authClient (Num 0)) None None None] \<rparr>)
   \<and> submitFeedbackAndGetNextImage (rejectWith (Error ''HTTP 400: No more images available.'')) None None None
       (authClient (Num 0)) emptyBrowser
     = Some (Inr \<lparr> image_url = [], iteration = Num 30, completed = True,
                    style = None, image_key = None \<rparr>,
             authClient (Num 30),
             \<lparr> localStorage = [''style_current_iteration'' \<mapsto> ''30''],
               requests = [nextRequest (authClient (Num 0)) None None None] \<rparr>)
   \<and> submitFeedbackAndGetNextImage (rejectWith (Error ''Failed to fetch'')) None None None
       (authClient (Num 0)) emptyBrowser
     = Some (Inl (Error ''Failed to fetch''), authClient (Num 0),
             \<lparr> localStorage = Map.empty,
               requests = [nextRequest (authClient (Num 0)) None None None] \<rparr>)"
proof -
  have auth: "isAuthenticated (authClient (Num 0))"
    and unfinished: "\<not> num_ge (currentIteration (authClient (Num 0))) 30"
    by (simp_all add: isAuthenticated_def authClient_def)
  note c3 = no_more_images_completes [OF auth unfinished, where env = emptyBrowser
      and fb = None and st = None and imageKey = None]
  have "submitFeedbackAndGetNextImage (respond400 ''No more images available'') None None None
       (authClient (Num 0)) emptyBrowser
     = Some (Inr \<lparr> image_url = [], iteration = Num 30, completed = True,
                    style = None, image_key = None \<rparr>,
             authClient (Num 30),
             \<lparr> localStorage = [''style_current_iteration'' \<mapsto> ''30''],
               requests = [nextRequest (authClient (Num 0)) None None None] \<rparr>)"
    using c3 [where fetch = "respond400 ''No more images available''"]
    by (simp add: respond400_def errorBody_def authClient_def emptyBrowser_def)
  moreover have "submitFeedbackAndGetNextImage (rejectWith (Error ''HTTP 400: No more images available.'')) None None None
       (authClient (Num 0)) emptyBrowser
     = Some (Inr \<lparr> image_url = [], iteration = Num 30, completed = True,
                    style = None, image_key = None \<rparr>,
             authClient (Num 30),
             \<lparr> localStorage = [''style_current_iteration'' \<mapsto> ''30''],
               requests = [nextRequest (authClient (Num 0)) None None None] \<rparr>)"
    using c3 [where fetch = "rejectWith (Error ''HTTP 400: No more images available.'')"]
    by (simp add: rejectWith_def authClient_def emptyBrowser_def)
  moreover have "submitFeedbackAndGetNextImage (rejectWith (Error ''Failed to fetch'')) None None None
       (authClient (Num 0)) emptyBrowser
     = Some (Inl (Error ''Failed to fetch''), authClient (Num 0),
             \<lparr> localStorage = Map.empty,
               requests = [nextRequest (authClient (Num 0)) None None None] \<rparr>)"
    using c3 [where fetch = "rejectWith (Error ''Failed to fetch'')"]
    by (simp add: rejectWith_def authClient_def emptyBrowser_def)
  ultimately show ?thesis by blast
qed


text \<open>
  C10. A 400 answer whose error text is not exactly \<^verbatim>\<open>No more images available\<close>
  but contains it is not recognised by the status branch; the error the method builds
  carries the text in its message, the inner handler finds the phrase there, and the call
  ends as a completion: 30 in the counter and in the store, and the terminal result
  instead of a thrown error.
\<close>

theorem unrecognised_400_with_phrase_completes:
  assumes "isAuthenticated this" and "\<not> num_ge (currentIteration this) 30"
    and "fetch (requests env) (nextRequest this fb st imageKey) = Resolves response"
    and "status response = 400" and "json response = Inr d" and "error d = Some errText"
    and "errText \<noteq> ''No more images available''"
    and "str_includes errText ''No more images available''"
  shows "failedToSubmit (status response) (error d) = Error (''Failed to submit feedback: 400 - '' @ errText)
    \<and> submitFeedbackAndGetNextImage fetch fb st imageKey this env =
          Some (Inr \<lparr> image_url = [], iteration = Num 30, completed = True,
                       style = None, image_key = None \<rparr>,
                this\<lparr> currentIteration := Num 30 \<rparr>,
                \<lparr> localStorage = (localStorage env)(''style_current_iteration'' \<mapsto> ''30''),
                  requests = requests env @ [nextRequest this fb st imageKey] \<rparr>)"
proof -
  from assms(1) have a: "truthy (aiId this)" and p: "truthy (preferenceId this)"
    by (simp_all add: isAuthenticated_def)
  have inc: "str_includes errText noMoreImages"
    using assms(8) by (simp add: noMoreImages_def)
  have ne: "errText \<noteq> []"
    using inc by (auto simp: noMoreImages_def)
  have other: "errText \<noteq> noMoreImages" "errText \<noteq> invalidIteration"
    using assms(7) inc not_includes_invalid by (auto simp: noMoreImages_def)
  have "digitsOf 400 = ''400''"
    by (simp add: digitsOf.simps digitChar_def)
  then have msg: "failedToSubmit (status response) (error d) =
      Error (''Failed to submit feedback: 400 - '' @ errText)"
    using ne assms(4,6) by (simp add: failedToSubmit_def errorText_def)
  have "str_includes (''Failed to submit feedback: 400 - '' @ errText) noMoreImages"
    using inc by (rule str_includes_append)
  then have "catchInner (failedToSubmit (status response) (error d)) this
               (logRequest (nextRequest this fb st imageKey) env) =
     (Inr (terminal (Num 30)), this\<lparr> currentIteration := Num 30 \<rparr>,
      \<lparr> localStorage = (localStorage env)(''style_current_iteration'' \<mapsto> ''30''),
        requests = requests env @ [nextRequest this fb st imageKey] \<rparr>)"
    unfolding msg by (rule catchInner_completes)
  then have "submitFeedbackAndGetNextImage fetch fb st imageKey this env =
          Some (Inr (terminal (Num 30)), this\<lparr> currentIteration := Num 30 \<rparr>,
                \<lparr> localStorage = (localStorage env)(''style_current_iteration'' \<mapsto> ''30''),
                  requests = requests env @ [nextRequest this fb st imageKey] \<rparr>)"
    using assms(3-6) other by (simp add: submit_fetches [OF a p assms(2)])
  with msg show ?thesis
    by (simp add: terminal_def)
qed

theorem unrecognised_400_with_phrase_completes_witness:
  "submitFeedbackAndGetNextImage (respond400 ''Error: No more images available today'') None None None
       (authClient (Num 0)) emptyBrowser
     = Some (Inr \<lparr> image_url = [], iteration = Num 30, completed = True,
                    style = None, image_key = None \<rparr>,
             authClient (Num 30),
             \<lparr> localStorage = [''style_current_iteration'' \<mapsto> ''30''],
               requests = [nextRequest (authClient (Num 0)) None None None] \<rparr>)"
proof -
  have auth: "isAuthenticated (authClient (Num 0))"
    and unfinished: "\<not> num_ge (currentIteration (authClient (Num 0))) 30"
    by (simp_all add: isAuthenticated_def authClient_def)
  note c10 = unrecognised_400_with_phrase_completes [OF auth unfinished,
        where fetch = "respond400 ''Error: No more images available today''"
        and env = emptyBrowser and fb = None and st = None and imageKey = None
        and response = "\<lparr> status = 400, json = Inr (errorBody ''Error: No more images available today'') \<rparr>"
        and d = "errorBody ''Error: No more images available today''"
        and errText = "''Error: No more images available today''"]
  show ?thesis
    using c10
    by (simp add: respond400_def errorBody_def authClient_def emptyBrowser_def)
qed

subsection \<open>getProfile\<close>

text \<open>
  C4. For an authenticated client getProfile always returns a profile, never a thrown
  value, for every transport. The profile is the empty default
  \<^verbatim>\<open>{top_styles: {}, selection_history: []}\<close> on a 400 answer, on every other
  non-success answer, and whenever the transport throws (the request fails or the body
  does not parse).
\<close>

theorem getProfile_never_throws:
  assumes "isAuthenticated this"
  shows "(\<exists>p. getProfile fetch this env =
              (Inr p, this, logRequest (profileRequest this ''GET'' []) env))
    \<and> (\<forall>response.
          fetch (requests env) (profileRequest this ''GET'' []) = Resolves response
          \<and> status response = 400 \<longrightarrow>
          getProfile fetch this env =
            (Inr \<lparr> top_styles = [], selection_history = [] \<rparr>, this,
             logRequest (profileRequest this ''GET'' []) env))
    \<and> (\<forall>response.
          fetch (requests env) (profileRequest this ''GET'' []) = Resolves response
          \<and> \<not> ok response \<longrightarrow>
          getProfile fetch this env =
            (Inr \<lparr> top_styles = [], selection_history = [] \<rparr>, this,
             logRequest (profileRequest this ''GET'' []) env))
    \<and> (\<forall>e.
          thrownBy (fetch (requests env) (profileRequest this ''GET'' [])) = Some e \<longrightarrow>
          getProfile fetch this env =
            (Inr \<lparr> top_styles = [], selection_history = [] \<rparr>, this,
             logRequest (profileRequest this ''GET'' []) env))"
proof -
  from assms have guard: "\<not> (\<not> truthy (aiId this) \<or> \<not> truthy (preferenceId this))"
    by (simp add: isAuthenticated_def)
  have unfold: "getProfile fetch this env =
      (case getProfileTry (fetch (requests env) (profileRequest this ''GET'' [])) of
         Inl e \<Rightarrow> (Inr defaultProfile, this, logRequest (profileRequest this ''GET'' []) env)
       | Inr p \<Rightarrow> (Inr p, this, logRequest (profileRequest this ''GET'' []) env))"
    using guard by (simp add: getProfile_def Let_def)
  have returns: "\<exists>p. getProfile fetch this env =
      (Inr p, this, logRequest (profileRequest this ''GET'' []) env)"
    unfolding unfold by (cases "getProfileTry (fetch (requests env) (profileRequest this ''GET'' []))") simp_all
  have bad_request: "getProfile fetch this env =
      (Inr \<lparr> top_styles = [], selection_history = [] \<rparr>, this,
       logRequest (profileRequest this ''GET'' []) env)"
    if "fetch (requests env) (profileRequest this ''GET'' []) = Resolves response"
      "\<not> ok response" for response
    using that unfolding unfold
    by (simp add: getProfileTry_def defaultProfile_def split: sum.splits)
  have thrown: "getProfile fetch this env =
      (Inr \<lparr> top_styles = [], selection_history = [] \<rparr>, this,
       logRequest (profileRequest this ''GET'' []) env)"
    if "thrownBy (fetch (requests env) (profileRequest this ''GET'' [])) = Some e" for e
    using that unfolding unfold
    by (cases "fetch (requests env) (profileRequest this ''GET'' [])")
       (auto simp: getProfileTry_def defaultProfile_def split: sum.splits)
  have "\<not> ok response" if "status response = 400" for response :: "profile_response response"
    using that by (simp add: ok_def)
  with returns bad_request thrown show ?thesis
    by blast
qed

theorem getProfile_never_throws_witness:
  "getProfile (rejectWith (Error ''Failed to fetch'')) (authClient (Num 3)) emptyBrowser
     = (Inr \<lparr> top_styles = [], selection_history = [] \<rparr>, authClient (Num 3),
        \<lparr> localStorage = Map.empty,
          requests = [\<lparr> url = ''https://api.test/preference/pref-1/profile'', http_method = ''GET'',
                        headers = [(''AI-ID'', ''ai-1'')], body = None \<rparr>] \<rparr>)
   \<and> getProfile (\<lambda>h q. Resolves \<lparr> status = 400, json = Inl (Error ''Unexpected end of JSON input'') \<rparr>)
        (authClient (Num 3)) emptyBrowser
     = (Inr \<lparr> top_styles = [], selection_history = [] \<rparr>, authClient (Num 3),
        \<lparr> localStorage = Map.empty,
          requests = [\<lparr> url = ''https://api.test/preference/pref-1/profile'', http_method = ''GET'',
                        headers = [(''AI-ID'', ''ai-1'')], body = None \<rparr>] \<rparr>)"
proof -
  have auth: "isAuthenticated (authClient (Num 3))"
    by (simp add: isAuthenticated_def authClient_def)
  note c4 = getProfile_never_throws [OF auth, where env = emptyBrowser]
  have "getProfile (rejectWith (Error ''Failed to fetch'')) (authClient (Num 3)) emptyBrowser
     = (Inr \<lparr> top_styles = [], selection_history = [] \<rparr>, authClient (Num 3),
        \<lparr> localStorage = Map.empty,
          requests = [\<lparr> url = ''https://api.test/preference/pref-1/profile'', http_method = ''GET'',
                        headers = [(''AI-ID'', ''ai-1'')], body = None \<rparr>] \<rparr>)"
    using c4 [where fetch = "rejectWith (Error ''Failed to fetch'')"]
    by (simp add: rejectWith_def authClient_def emptyBrowser_def logRequest_def
        profileRequest_def template_def)
  moreover have "getProfile (\<lambda>h q. Resolves \<lparr> status = 400, json = Inl (Error ''Unexpected end of JSON input'') \<rparr>)
        (authClient (Num 3)) emptyBrowser
     = (Inr \<lparr> top_styles = [], selection_history = [] \<rparr>, authClient (Num 3),
        \<lparr> localStorage = Map.empty,
          requests = [\<lparr> url = ''https://api.test/preference/pref-1/profile'', http_method = ''GET'',
                        headers = [(''AI-ID'', ''ai-1'')], body = None \<rparr>] \<rparr>)"
    using c4 [where fetch = "\<lambda>h q. Resolves \<lparr> status = 400, json = Inl (Error ''Unexpected end of JSON input'') \<rparr>"]
    by (simp add: authClient_def emptyBrowser_def logRequest_def profileRequest_def template_def)
  ultimately show ?thesis ..
qed


subsection \<open>The reset after an invalid iteration\<close>

text \<open>One \<^verbatim>\<open>Invalid iteration ID\<close> answer: the call continues as the same call on the reset state.\<close>

lemma submit_invalid:
  assumes "truthy (aiId this)" "truthy (preferenceId this)" "\<not> num_ge (currentIteration this) 30"
    and "answersInvalid (fetch (requests env) (nextRequest this fb st imageKey))"
  shows "submitFeedbackAndGetNextImage fetch fb st imageKey this env =
         submitFeedbackAndGetNextImage fetch fb st imageKey
           (this\<lparr> currentIteration := Num 0 \<rparr>)
           \<lparr> localStorage = (localStorage env)(''style_current_iteration'' \<mapsto> ''0''),
             requests = requests env @ [nextRequest this fb st imageKey] \<rparr>"
  using assms(4) unfolding submit_fetches [OF assms(1-3)]
  by (auto simp: answersInvalid_def setCurrentIteration_0 invalidIteration_def noMoreImages_def
      split: outcome.splits sum.splits)

text \<open>
  A transport that gives this answer to every request keeps the method calling itself:
  by induction on the unfolding of the recursion, no call returns.
\<close>

lemma invalid_forever_never_returns:
  assumes "\<forall>h q. answersInvalid (fetch h q)"
    and "truthy (aiId this)" "truthy (preferenceId this)" "\<not> num_ge (currentIteration this) 30"
  shows "submitFeedbackAndGetNextImage fetch fb st imageKey this env = None"
proof (rule ccontr)
  assume "submitFeedbackAndGetNextImage fetch fb st imageKey this env \<noteq> None"
  then obtain y where ret: "submitFeedbackAndGetNextImage fetch fb st imageKey this env = Some y"
    by auto
  have "\<not> retriesForever fetch this"
    apply (rule submitFeedbackAndGetNextImage.raw_induct
        [where P = "\<lambda>fetch fb st imageKey this env y. \<not> retriesForever fetch this", OF _ ret])
    subgoal premises step for retry fetch fb st imageKey this env y
    proof
      let ?req = "iterationRequest this (nextIterationOf (currentIteration this)) fb st imageKey"
      assume loop: "retriesForever fetch this"
      then have ans: "answersInvalid (fetch (requests env) ?req)"
        and a: "truthy (aiId this)" and p: "truthy (preferenceId this)"
        and c: "\<not> num_ge (currentIteration this) 30"
        by (simp_all add: retriesForever_def)
      have "retry fetch fb st imageKey
              (fst (setCurrentIteration (Num 0) this (logRequest ?req env)))
              (snd (setCurrentIteration (Num 0) this (logRequest ?req env))) = Some y"
        using step(2) a p c next_not_gt [OF c] ans
        by (auto simp: Let_def answersInvalid_def invalidIteration_def noMoreImages_def
            split: outcome.splits sum.splits prod.splits if_splits)
      then have "\<not> retriesForever fetch (fst (setCurrentIteration (Num 0) this (logRequest ?req env)))"
        by (rule step(1))
      with loop show False
        by (simp add: retriesForever_def setCurrentIteration_def)
    qed
    done
  with assms show False by (simp add: retriesForever_def)
qed


text \<open>
  C2, as the code has it. On a 400 answer with the error text exactly
  \<^verbatim>\<open>Invalid iteration ID\<close> the method stores 0 in the counter (client and store) and
  runs the same call again with the same arguments on that state; the request of the
  retry targets iteration 1 and carries the original feedback. The retry is an ordinary
  call: the source puts no bound on the number of resets.
\<close>

theorem invalid_iteration_resets_and_retries:
  assumes "isAuthenticated this" and "\<not> num_ge (currentIteration this) 30"
    and "fetch (requests env) (nextRequest this fb st imageKey) = Resolves response"
    and "status response = 400" and "json response = Inr d"
    and "error d = Some ''Invalid iteration ID''"
  shows "submitFeedbackAndGetNextImage fetch fb st imageKey this env =
         submitFeedbackAndGetNextImage fetch fb st imageKey
           (this\<lparr> currentIteration := Num 0 \<rparr>)
           \<lparr> localStorage = (localStorage env)(''style_current_iteration'' \<mapsto> ''0''),
             requests = requests env @ [nextRequest this fb st imageKey] \<rparr>
    \<and> url (nextRequest (this\<lparr> currentIteration := Num 0 \<rparr>) fb st imageKey) =
          apiBaseUrl this @ ''/preference/'' @ template (preferenceId this) @ ''/iteration/1''
    \<and> body (nextRequest (this\<lparr> currentIteration := Num 0 \<rparr>) fb st imageKey) =
          Some (IterationBody (case fb of None \<Rightarrow> Dislike | Some f \<Rightarrow> f) None None)"
proof -
  from assms(1) have a: "truthy (aiId this)" and p: "truthy (preferenceId this)"
    by (simp_all add: isAuthenticated_def)
  have "answersInvalid (fetch (requests env) (nextRequest this fb st imageKey))"
    using assms(3-6) by (simp add: answersInvalid_def invalidIteration_def)
  from submit_invalid [where fetch = fetch and env = env and fb = fb and st = st
      and imageKey = imageKey, OF a p assms(2) this]
  show ?thesis
    by (simp add: nextRequest_def iterationRequest_def nextIterationOf_def digitsOf_1)
qed

theorem invalid_iteration_resets_and_retries_witness:
  "submitFeedbackAndGetNextImage (invalidTimes 1) (Some Like) None None
       (authClient (Num 5)) emptyBrowser
     = Some (Inr \<lparr> image_url = ''img-1'', iteration = Num 1, completed = False,
                    style = None, image_key = None \<rparr>,
             authClient (Num 1),
             \<lparr> localStorage = [''style_current_iteration'' \<mapsto> ''1''],
               requests = [nextRequest (authClient (Num 5)) (Some Like) None None,
                           nextRequest (authClient (Num 0)) (Some Like) None None] \<rparr>)"
proof -
  have auth: "isAuthenticated (authClient (Num 5))"
    and unfinished: "\<not> num_ge (currentIteration (authClient (Num 5))) 30"
    by (simp_all add: isAuthenticated_def authClient_def)
  have first: "invalidTimes 1 (requests emptyBrowser) (nextRequest (authClient (Num 5)) (Some Like) None None)
      = Resolves \<lparr> status = 400, json = Inr (errorBody ''Invalid iteration ID'') \<rparr>"
    by (simp add: invalidTimes_def emptyBrowser_def)
  note c2 = invalid_iteration_resets_and_retries [where fetch = "invalidTimes 1"
      and env = emptyBrowser and fb = "Some Like" and st = None and imageKey = None
      and d = "errorBody ''Invalid iteration ID''", OF auth unfinished first]
  have retried: "submitFeedbackAndGetNextImage (invalidTimes 1) (Some Like) None None
       (authClient (Num 0))
       \<lparr> localStorage = [''style_current_iteration'' \<mapsto> ''0''],
         requests = [nextRequest (authClient (Num 5)) (Some Like) None None] \<rparr>
     = Some (Inr \<lparr> image_url = ''img-1'', iteration = Num 1, completed = False,
                    style = None, image_key = None \<rparr>,
             authClient (Num 1),
             \<lparr> localStorage = [''style_current_iteration'' \<mapsto> ''1''],
               requests = [nextRequest (authClient (Num 5)) (Some Like) None None,
                           nextRequest (authClient (Num 0)) (Some Like) None None] \<rparr>)"
    by (simp add: submit_fetches authClient_simps invalidTimes_def imageBody_def ok_def
        setCurrentIteration_def logRequest_def setItem_def digitsOf_1)
  from c2 retried show ?thesis
    by (simp add: errorBody_def emptyBrowser_def authClient_simps)
qed

text \<open>
  C2 as stated fails: a transport that always answers \<^verbatim>\<open>Invalid iteration ID\<close> makes
  the call run for ever, and after two such answers in a row the method retries a second
  time (three requests) and returns the image instead of failing.
\<close>

theorem retry_is_unbounded_counterexample:
  "submitFeedbackAndGetNextImage alwaysInvalid (Some Like) None None
       (authClient (Num 5)) emptyBrowser = None
   \<and> submitFeedbackAndGetNextImage (invalidTimes 2) (Some Like) None None
       (authClient (Num 5)) emptyBrowser
     = Some (Inr \<lparr> image_url = ''img-1'', iteration = Num 1, completed = False,
                    style = None, image_key = None \<rparr>,
             authClient (Num 1),
             \<lparr> localStorage = [''style_current_iteration'' \<mapsto> ''1''],
               requests = [nextRequest (authClient (Num 5)) (Some Like) None None,
                           nextRequest (authClient (Num 0)) (Some Like) None None,
                           nextRequest (authClient (Num 0)) (Some Like) None None] \<rparr>)"
proof -
  have "\<forall>h q. answersInvalid (alwaysInvalid h q)"
    by (simp add: answersInvalid_def alwaysInvalid_def errorBody_def invalidIteration_def)
  then have "submitFeedbackAndGetNextImage alwaysInvalid (Some Like) None None
       (authClient (Num 5)) emptyBrowser = None"
    by (rule invalid_forever_never_returns) (simp_all add: authClient_simps)
  moreover have "submitFeedbackAndGetNextImage (invalidTimes 2) (Some Like) None None
       (authClient (Num 5)) emptyBrowser
     = Some (Inr \<lparr> image_url = ''img-1'', iteration = Num 1, completed = False,
                    style = None, image_key = None \<rparr>,
             authClient (Num 1),
             \<lparr> localStorage = [''style_current_iteration'' \<mapsto> ''1''],
               requests = [nextRequest (authClient (Num 5)) (Some Like) None None,
                           nextRequest (authClient (Num 0)) (Some Like) None None,
                           nextRequest (authClient (Num 0)) (Some Like) None None] \<rparr>)"
    by (simp add: submit_fetches authClient_simps invalidTimes_def imageBody_def errorBody_def ok_def
        invalidIteration_def noMoreImages_def emptyBrowser_def
        setCurrentIteration_def logRequest_def setItem_def digitsOf_1 digitsOf_0)
  ultimately show ?thesis ..
qed


subsection \<open>The range of the counter\<close>

text \<open>
  \<open>counterOk\<close> holds of the module's singleton in an empty store, and it bounds the
  counter. Each method keeps it; for setCurrentIteration and for the success answer of the
  iteration endpoint this needs the value written to be in the range.
\<close>

lemma counterOk_logRequest: "counterOk (this, logRequest req env) = counterOk (this, env)"
  by (simp add: counterOk_def mirrored_def logRequest_def)

lemma counterOk_setCurrentIteration: "inRange n \<Longrightarrow> counterOk (setCurrentIteration n this env)"
  by (simp add: counterOk_def mirrored_def setCurrentIteration_def getItem_def setItem_def)

lemma counterOk_setSessionData: "counterOk (setSessionData a p this env)"
  by (simp add: counterOk_def mirrored_def setSessionData_def getItem_def setItem_def digitsOf_0)

lemma counterOk_clearSessionData: "counterOk (clearSessionData this env)"
  by (simp add: counterOk_def mirrored_def clearSessionData_def getItem_def removeItem_def)

lemma counterOk_catchInner:
  "counterOk (this, env) \<Longrightarrow> counterOk (snd (catchInner e this env))"
  by (cases e) (simp_all add: catchInner_def counterOk_setCurrentIteration split: prod.splits)

lemma counterOk_authenticate:
  "counterOk (this, env) \<Longrightarrow> counterOk (snd (authenticate fetch accessId gender this env))"
  by (auto simp: authenticate_def Let_def counterOk_logRequest counterOk_setSessionData
      split: outcome.splits sum.splits prod.splits)

lemma counterOk_saveProfile:
  "counterOk (this, env) \<Longrightarrow> counterOk (snd (saveProfile fetch this env))"
  by (auto simp: saveProfile_def Let_def counterOk_logRequest split: outcome.splits sum.splits)

lemma counterOk_getProfile:
  "counterOk (this, env) \<Longrightarrow> counterOk (snd (getProfile fetch this env))"
  by (auto simp: getProfile_def Let_def counterOk_logRequest split: sum.splits)

lemma counterOk_checkApiHealth:
  "counterOk (this, env) \<Longrightarrow> counterOk (snd (checkApiHealth fetch this env))"
  by (auto simp: checkApiHealth_def Let_def counterOk_logRequest split: outcome.splits sum.splits)

lemma reload_counter:
  "mirrored this env \<Longrightarrow> currentIteration (StyleApiClient baseUrl env) = currentIteration this"
  by (auto simp: mirrored_def StyleApiClient_def Let_def parseInt_toString toString_nonempty
      split: option.splits)

lemma counterOk_reload:
  assumes "counterOk (this, env)"
  shows "counterOk (StyleApiClient baseUrl env, env)"
proof -
  from assms have m: "mirrored this env"
    by (simp add: counterOk_def)
  have "currentIteration (StyleApiClient baseUrl env) = currentIteration this"
    using m by (rule reload_counter)
  with assms show ?thesis
    by (simp add: counterOk_def mirrored_def split: option.splits)
qed

lemma counterOk_initial: "counterOk (styleApiClient, emptyBrowser)"
  by (simp add: counterOk_def mirrored_def styleApiClient_def StyleApiClient_def emptyBrowser_def
      getItem_def)

lemma counterOk_range:
  "counterOk (this, env) \<Longrightarrow> \<exists>n. currentIteration this = Num n \<and> 0 \<le> n \<and> n \<le> 30"
  by (cases "currentIteration this") (simp_all add: counterOk_def)

text \<open>
  The recursive method, by induction on the unfolding of its recursion: every path ends
  in a state that an earlier lemma covers, and the retry starts from the counter 0.
\<close>

lemma counterOk_submit:
  assumes "serverInRange fetch" and "counterOk (this, env)"
    and ret: "submitFeedbackAndGetNextImage fetch fb st imageKey this env = Some r"
  shows "counterOk (snd r)"
proof -
  have "serverInRange fetch \<longrightarrow> counterOk (this, env) \<longrightarrow> counterOk (snd r)"
    apply (rule submitFeedbackAndGetNextImage.raw_induct
        [where P = "\<lambda>fetch fb st imageKey this env r.
           serverInRange fetch \<longrightarrow> counterOk (this, env) \<longrightarrow> counterOk (snd r)", OF _ ret])
    subgoal premises step for retry fetch fb st imageKey this env r
    proof (intro impI)
      let ?req = "iterationRequest this (nextIterationOf (currentIteration this)) fb st imageKey"
      let ?env1 = "logRequest ?req env"
      assume srv: "serverInRange fetch" and inv: "counterOk (this, env)"
      from inv have inv1: "counterOk (this, ?env1)"
        by (simp add: counterOk_logRequest)
      have caught: "counterOk (snd (catchInner e this ?env1))" for e
        using inv1 by (rule counterOk_catchInner)
      have reset: "counterOk (setCurrentIteration (Num 0) this ?env1)"
        and done30: "counterOk (setCurrentIteration (Num 30) this ?env1)"
        by (simp_all add: counterOk_setCurrentIteration)
      have again: "counterOk (snd r')"
        if "retry fetch fb st imageKey (fst (setCurrentIteration (Num 0) this ?env1))
              (snd (setCurrentIteration (Num 0) this ?env1)) = Some r'" for r'
        using step(1) [OF that] srv reset by simp
      have served: "counterOk (setCurrentIteration (iteration (data d)) this ?env1)"
        if "fetch (requests env) ?req = Resolves response" "ok response" "json response = Inr d"
        for response d
        using srv that by (auto simp: serverInRange_def intro: counterOk_setCurrentIteration)
      show "counterOk (snd r)"
      proof (cases "\<not> truthy (aiId this) \<or> \<not> truthy (preferenceId this)
                    \<or> num_ge (currentIteration this) 30
                    \<or> num_gt (nextIterationOf (currentIteration this)) 30")
        case True
        with step(2) inv show ?thesis
          by (auto simp: Let_def split: if_splits)
      next
        case False
        show ?thesis
        proof (cases "fetch (requests env) ?req")
          case (Rejects e)
          with step(2) False caught show ?thesis
            by (auto simp: Let_def)
        next
          case (Resolves response)
          show ?thesis
          proof (cases "json response")
            case (Inl e)
            with step(2) False Resolves caught show ?thesis
              by (auto simp: Let_def split: if_splits)
          next
            case (Inr d)
            with step(2) False Resolves caught again reset done30 served [OF Resolves _ Inr]
            show ?thesis
              by (auto simp: Let_def split: if_splits prod.splits)
          qed
        qed
      qed
    qed
    done
  with assms show ?thesis by simp
qed


lemma digitsOf_7: "digitsOf 7 = ''7''"
  by (simp add: digitsOf.simps digitChar_def)

lemma digitsOf_31: "digitsOf 31 = ''31''"
  by (simp add: digitsOf.simps digitChar_def)

lemma submit_respondImage:
  "\<not> num_ge n 30 \<Longrightarrow>
   submitFeedbackAndGetNextImage (respondImage k) fb st imageKey (authClient n) env =
     Some (Inr \<lparr> image_url = ''img-1'', iteration = Num k, completed = (k \<ge> 30),
                  style = None, image_key = None \<rparr>,
           authClient (Num k),
           \<lparr> localStorage = (localStorage env)(''style_current_iteration'' \<mapsto> toString (Num k)),
             requests = requests env @ [nextRequest (authClient n) fb st imageKey] \<rparr>)"
  by (cases env)
     (simp add: submit_fetches authClient_simps respondImage_def imageBody_def ok_def
        setCurrentIteration_def logRequest_def setItem_def del: toString.simps)

text \<open>
  C9, as the code has it. The counter is an integer in \<open>[0, 30]\<close> that the store
  mirrors, and every operation keeps it so (construction of a fresh client on the store
  included), provided that setCurrentIteration is given a value in the range and that
  the success answers of the iteration endpoint carry an iteration in the range. The
  source clamps neither.
\<close>

theorem counter_stays_in_range:
  assumes "counterOk (this, env)"
  shows "counterOk (setSessionData a p this env)
    \<and> counterOk (clearSessionData this env)
    \<and> (inRange n \<longrightarrow> counterOk (setCurrentIteration n this env))
    \<and> counterOk (snd (authenticate fetchA accessId gender this env))
    \<and> (serverInRange fetch \<longrightarrow>
         (\<forall>r. submitFeedbackAndGetNextImage fetch fb st imageKey this env = Some r
              \<longrightarrow> counterOk (snd r)))
    \<and> counterOk (snd (saveProfile fetchS this env))
    \<and> counterOk (snd (getProfile fetchP this env))
    \<and> counterOk (snd (checkApiHealth fetchH this env))
    \<and> counterOk (StyleApiClient baseUrl env, env)"
  using assms
  by (intro conjI impI allI)
     (simp_all add: counterOk_setSessionData counterOk_clearSessionData
        counterOk_setCurrentIteration counterOk_authenticate counterOk_saveProfile
        counterOk_getProfile counterOk_checkApiHealth counterOk_reload
        counterOk_submit [where fetch = fetch and fb = fb and st = st and imageKey = imageKey])

theorem counter_stays_in_range_witness:
  "counterOk (authClient (Num 6), storedCounter ''6'')
   \<and> counterOk (setSessionData ''ai-2'' ''pref-2'' (authClient (Num 6)) (storedCounter ''6''))
   \<and> counterOk (clearSessionData (authClient (Num 6)) (storedCounter ''6''))
   \<and> inRange (Num 9)
   \<and> counterOk (setCurrentIteration (Num 9) (authClient (Num 6)) (storedCounter ''6''))
   \<and> serverInRange (respondImage 7)
   \<and> submitFeedbackAndGetNextImage (respondImage 7) (Some Like) None None
        (authClient (Num 6)) (storedCounter ''6'')
       = Some (Inr \<lparr> image_url = ''img-1'', iteration = Num 7, completed = False,
                      style = None, image_key = None \<rparr>,
               authClient (Num 7),
               \<lparr> localStorage = [''style_current_iteration'' \<mapsto> ''7''],
                 requests = [nextRequest (authClient (Num 6)) (Some Like) None None] \<rparr>)
   \<and> counterOk (authClient (Num 7),
               \<lparr> localStorage = [''style_current_iteration'' \<mapsto> ''7''],
                 requests = [nextRequest (authClient (Num 6)) (Some Like) None None] \<rparr>)
   \<and> currentIteration (StyleApiClient default_baseUrl (storedCounter ''6'')) = Num 6
   \<and> counterOk (StyleApiClient default_baseUrl (storedCounter ''6''), storedCounter ''6'')"
proof -
  have start: "counterOk (authClient (Num 6), storedCounter ''6'')"
    by (simp add: counterOk_def mirrored_def authClient_def storedCounter_def getItem_def
        digitsOf.simps digitChar_def)
  have nine: "inRange (Num 9)"
    by simp
  have served: "serverInRange (respondImage 7)"
    by (auto simp: serverInRange_def respondImage_def imageBody_def)
  have run: "submitFeedbackAndGetNextImage (respondImage 7) (Some Like) None None
        (authClient (Num 6)) (storedCounter ''6'')
       = Some (Inr \<lparr> image_url = ''img-1'', iteration = Num 7, completed = False,
                      style = None, image_key = None \<rparr>,
               authClient (Num 7),
               \<lparr> localStorage = [''style_current_iteration'' \<mapsto> ''7''],
                 requests = [nextRequest (authClient (Num 6)) (Some Like) None None] \<rparr>)"
    by (simp add: submit_respondImage storedCounter_def digitsOf_7)
  have reload: "currentIteration (StyleApiClient default_baseUrl (storedCounter ''6'')) = Num 6"
    using reload_counter [of "authClient (Num 6)" "storedCounter ''6''" default_baseUrl] start
    by (simp add: counterOk_def authClient_simps)
  from counter_stays_in_range [OF start, where n = "Num 9" and fetch = "respondImage 7"
      and fb = "Some Like" and st = None and imageKey = None and a = "''ai-2''" and p = "''pref-2''"
      and baseUrl = default_baseUrl]
    start nine served run reload
  show ?thesis
    by simp
qed

text \<open>
  C9 as stated fails: a success answer with iteration 31 is stored as it is, and
  setCurrentIteration stores whatever it is given.
\<close>

theorem counter_leaves_range_counterexample:
  "counterOk (authClient (Num 6), storedCounter ''6'')
   \<and> submitFeedbackAndGetNextImage (respondImage 31) (Some Like) None None
        (authClient (Num 6)) (storedCounter ''6'')
       = Some (Inr \<lparr> image_url = ''img-1'', iteration = Num 31, completed = True,
                      style = None, image_key = None \<rparr>,
               authClient (Num 31),
               \<lparr> localStorage = [''style_current_iteration'' \<mapsto> ''31''],
                 requests = [nextRequest (authClient (Num 6)) (Some Like) None None] \<rparr>)
   \<and> \<not> inRange (currentIteration (authClient (Num 31)))
   \<and> \<not> inRange (currentIteration
          (fst (setCurrentIteration (Num (- 1)) (authClient (Num 6)) (storedCounter ''6''))))"
proof -
  have "counterOk (authClient (Num 6), storedCounter ''6'')"
    by (simp add: counterOk_def mirrored_def authClient_def storedCounter_def getItem_def
        digitsOf.simps digitChar_def)
  moreover have "submitFeedbackAndGetNextImage (respondImage 31) (Some Like) None None
        (authClient (Num 6)) (storedCounter ''6'')
       = Some (Inr \<lparr> image_url = ''img-1'', iteration = Num 31, completed = True,
                      style = None, image_key = None \<rparr>,
               authClient (Num 31),
               \<lparr> localStorage = [''style_current_iteration'' \<mapsto> ''31''],
                 requests = [nextRequest (authClient (Num 6)) (Some Like) None None] \<rparr>)"
    by (simp add: submit_respondImage storedCounter_def digitsOf_31)
  moreover have "\<not> inRange (currentIteration (authClient (Num 31)))"
    by (simp add: authClient_simps)
  moreover have "\<not> inRange (currentIteration
          (fst (setCurrentIteration (Num (- 1)) (authClient (Num 6)) (storedCounter ''6''))))"
    by (simp add: setCurrentIteration_def)
  ultimately show ?thesis by blast
qed

end
